theory Spec2Isabelle
  imports Complex_Main "HOL-Library.Stream"
begin

section \<open>Configuration\<close>

text \<open>
  A shallow embedding of \<^verbatim>\<open>snake_game.py\<close>. The fields of the \<^verbatim>\<open>SnakeGame\<close> object are a
  record; everything outside the object that the methods read or write (the random number
  generator, the two JSON files, standard output, the window) is a second record that is
  passed along explicitly. Drawing, sound and the frame timer of \<^verbatim>\<open>on_update\<close> are not
  part of the embedding: a tick is a call of \<^verbatim>\<open>game_tick\<close>.
\<close>

type_synonym Pos = "int \<times> int"

definition GRID_WIDTH :: int where
  "GRID_WIDTH = 30"

definition GRID_HEIGHT :: int where
  "GRID_HEIGHT = 20"

text \<open>An entry of \<^verbatim>\<open>LEVELS\<close>: the dictionary with the keys \<^verbatim>\<open>"score"\<close> and \<^verbatim>\<open>"speed"\<close>.\<close>

record level =
  level_score :: int
  level_speed :: int

definition LEVELS :: "level list" where
  "LEVELS =
     [\<lparr>level_score = 0, level_speed = 5\<rparr>,
      \<lparr>level_score = 50, level_speed = 8\<rparr>,
      \<lparr>level_score = 100, level_speed = 12\<rparr>,
      \<lparr>level_score = 150, level_speed = 15\<rparr>]"

section \<open>Outcomes of a call\<close>

text \<open>
  A call returns, raises, or runs forever. \<open>Untyped\<close> marks the runs in which Python goes
  on with a value of a type that the typed session below does not hold (a score that is a
  string, a cell that is a triple): the embedding does not follow such runs.
\<close>

datatype exn = OSError | JSONDecodeError | TypeError | KeyError | IndexError

datatype 'a outcome = Returns 'a | Raises exn | Diverges | Untyped

fun then_do :: "'a outcome \<Rightarrow> ('a \<Rightarrow> 'b outcome) \<Rightarrow> 'b outcome" where
  "then_do (Returns x) f = f x"
| "then_do (Raises x) f = Raises x"
| "then_do Diverges f = Diverges"
| "then_do Untyped f = Untyped"

text \<open>Indexing a list with a Python integer: negative indices count from the end.\<close>

definition py_index :: "'a list \<Rightarrow> int \<Rightarrow> 'a outcome" where
  "py_index xs i =
     (let n = int (length xs); j = (if i < 0 then n + i else i)
      in if 0 \<le> j \<and> j < n then Returns (xs ! nat j) else Raises IndexError)"

section \<open>JSON documents and files\<close>

text \<open>
  What \<^verbatim>\<open>json.load\<close> builds. An object is the list of its items in order, with one item
  per key. The value of a floating-point number is never looked at, so it is not kept.
\<close>

datatype json =
    JNull
  | JBool bool
  | JInt int
  | JFloat
  | JString string
  | JArray "json list"
  | JObject "(string \<times> json) list"

text \<open>A file is absent (or cannot be opened), holds text that is not JSON, or holds a document.\<close>

datatype disk_file = Missing | Invalid | Doc json

text \<open>\<^verbatim>\<open>with open(name, "r") as f: data = json.load(f)\<close>\<close>

fun json_load :: "disk_file \<Rightarrow> json outcome" where
  "json_load Missing = Raises OSError"
| "json_load Invalid = Raises JSONDecodeError"
| "json_load (Doc d) = Returns d"

text \<open>\<^verbatim>\<open>data[key]\<close> with a string key: only a dictionary can be subscripted by a string.\<close>

fun py_getitem :: "json \<Rightarrow> string \<Rightarrow> json outcome" where
  "py_getitem (JObject kvs) k = (case map_of kvs k of None \<Rightarrow> Raises KeyError | Some v \<Rightarrow> Returns v)"
| "py_getitem _ k = Raises TypeError"

text \<open>
  \<^verbatim>\<open>tuple(p)\<close>: any array, string or object is iterable and gives some tuple; only a pair of
  integers is a cell.
\<close>

fun py_tuple :: "json \<Rightarrow> Pos outcome" where
  "py_tuple (JArray [JInt x, JInt y]) = Returns (x, y)"
| "py_tuple (JArray _) = Untyped"
| "py_tuple (JString _) = Untyped"
| "py_tuple (JObject _) = Untyped"
| "py_tuple _ = Raises TypeError"

text \<open>
  \<^verbatim>\<open>[tuple(p) for p in ps]\<close> over the elements of an array: the comprehension raises at the
  first element that is not iterable, also after elements that gave tuples of another shape.
\<close>

fun tuples :: "json list \<Rightarrow> Pos list outcome" where
  "tuples [] = Returns []"
| "tuples (p # ps) =
     (case py_tuple p of
        Returns c \<Rightarrow> then_do (tuples ps) (\<lambda>cs. Returns (c # cs))
      | Raises x \<Rightarrow> Raises x
      | Diverges \<Rightarrow> Diverges
      | Untyped \<Rightarrow> (case tuples ps of Raises x \<Rightarrow> Raises x | Diverges \<Rightarrow> Diverges | _ \<Rightarrow> Untyped))"

text \<open>
  \<^verbatim>\<open>[tuple(p) for p in v]\<close>: iterating a string gives its characters and iterating a
  dictionary its keys, each of which is a string.
\<close>

fun py_tuple_list :: "json \<Rightarrow> Pos list outcome" where
  "py_tuple_list (JArray ps) = tuples ps"
| "py_tuple_list (JString cs) = (if cs = [] then Returns [] else Untyped)"
| "py_tuple_list (JObject kvs) = (if kvs = [] then Returns [] else Untyped)"
| "py_tuple_list _ = Raises TypeError"

text \<open>A value that is stored as it is: the session takes it when it is an integer.\<close>

fun py_int :: "json \<Rightarrow> int outcome" where
  "py_int (JInt n) = Returns n"
| "py_int _ = Untyped"

text \<open>What \<^verbatim>\<open>json.dump\<close> writes for a cell (a tuple is written as an array).\<close>

definition json_of_pos :: "Pos \<Rightarrow> json" where
  "json_of_pos p = JArray [JInt (fst p), JInt (snd p)]"

section \<open>The session and its surroundings\<close>

text \<open>
  The fields that \<^verbatim>\<open>reset_game\<close> sets. \<^verbatim>\<open>tick_accumulator\<close> is a Python float; the methods
  below only set it to zero or leave it alone.
\<close>

record session =
  snake :: "Pos list"
  direction :: Pos
  food :: Pos
  score :: int
  level_index :: int
  moves_per_second :: int
  tick_accumulator :: real
  game_over :: bool
  paused :: bool
  highscore :: int

datatype message = Game_saved | Failed_to_save exn | Game_loaded | Failed_to_load exn

text \<open>
  \<open>rng\<close> is the source of randomness, read from the front. \<open>can_write_save\<close> and
  \<open>can_write_highscore\<close> say whether opening the file for writing and dumping to it succeed.
  \<open>console\<close> collects what \<^verbatim>\<open>print\<close> writes (without the text of the exception).
\<close>

record world =
  rng :: "nat stream"
  save_file :: disk_file
  highscore_file :: disk_file
  can_write_save :: bool
  can_write_highscore :: bool
  console :: "message list"
  window_open :: bool

text \<open>
  \<^verbatim>\<open>random.randint(a, b)\<close>: an integer between \<open>a\<close> and \<open>b\<close>, both included. Every call
  takes the next number of the generator and brings it into that range, so every sequence of
  results is the sequence of some generator.
\<close>

definition randint :: "int \<Rightarrow> int \<Rightarrow> nat stream \<Rightarrow> int \<times> nat stream" where
  "randint a b r = (a + int (shd r) mod (b - a + 1), stl r)"

section \<open>Food\<close>

text \<open>
  The loop of \<^verbatim>\<open>spawn_food\<close>: \<open>None\<close> when it never leaves \<^verbatim>\<open>while True\<close>.
\<close>

partial_function (option) spawn_loop :: "Pos list \<Rightarrow> nat stream \<Rightarrow> (Pos \<times> nat stream) option" where
  "spawn_loop sn r =
     (case randint 0 (GRID_WIDTH - 1) r of (x, r1) \<Rightarrow>
      case randint 0 (GRID_HEIGHT - 1) r1 of (y, r2) \<Rightarrow>
        if (x, y) \<notin> set sn then Some ((x, y), r2) else spawn_loop sn r2)"

definition spawn_food :: "session \<Rightarrow> world \<Rightarrow> (session \<times> world) outcome" where
  "spawn_food s w =
     (case spawn_loop (snake s) (rng w) of
        None \<Rightarrow> Diverges
      | Some (p, r) \<Rightarrow> Returns (s\<lparr>food := p\<rparr>, w\<lparr>rng := r\<rparr>))"

section \<open>High score\<close>

text \<open>
  \<^verbatim>\<open>load_highscore\<close>: every exception (no file, no JSON, a document without \<^verbatim>\<open>get\<close>) gives 0.
\<close>

definition load_highscore :: "world \<Rightarrow> int outcome" where
  "load_highscore w =
     (case json_load (highscore_file w) of
        Returns (JObject kvs) \<Rightarrow>
          (case map_of kvs ''highscore'' of None \<Rightarrow> Returns 0 | Some v \<Rightarrow> py_int v)
      | _ \<Rightarrow> Returns 0)"

text \<open>
  \<^verbatim>\<open>save_highscore\<close>: the field is assigned after the file is written, inside the same
  \<^verbatim>\<open>try\<close>; when writing raises, \<^verbatim>\<open>except Exception: pass\<close> leaves both as they were.
\<close>

definition save_highscore :: "session \<Rightarrow> world \<Rightarrow> session \<times> world" where
  "save_highscore s w =
     (let data = max (highscore s) (score s)
      in if can_write_highscore w
         then (s\<lparr>highscore := data\<rparr>, w\<lparr>highscore_file := Doc (JObject [(''highscore'', JInt data)])\<rparr>)
         else (s, w))"

section \<open>Reset\<close>

definition reset_game :: "world \<Rightarrow> (session \<times> world) outcome" where
  "reset_game w =
     (let snake0 = [(GRID_WIDTH div 2, GRID_HEIGHT div 2)]
      in case spawn_loop snake0 (rng w) of
           None \<Rightarrow> Diverges
         | Some (p, r) \<Rightarrow>
             then_do (load_highscore w) (\<lambda>h.
               Returns
                 (\<lparr>snake = snake0, direction = (1, 0), food = p, score = 0, level_index = 0,
                   moves_per_second = level_speed (LEVELS ! 0), tick_accumulator = 0,
                   game_over = False, paused = False, highscore = h\<rparr>,
                  w\<lparr>rng := r\<rparr>)))"

section \<open>Levels\<close>

text \<open>
  \<^verbatim>\<open>check_level_up\<close>: the loop over \<^verbatim>\<open>reversed(range(len(LEVELS)))\<close>, which stops
  (\<^verbatim>\<open>break\<close>) at the first index whose threshold the score reaches.
\<close>

fun level_loop :: "nat list \<Rightarrow> session \<Rightarrow> session" where
  "level_loop [] s = s"
| "level_loop (idx # rest) s =
     (if score s \<ge> level_score (LEVELS ! idx)
      then (if int idx \<noteq> level_index s
            then s\<lparr>level_index := int idx, moves_per_second := level_speed (LEVELS ! idx)\<rparr>
            else s)
      else level_loop rest s)"

definition check_level_up :: "session \<Rightarrow> session" where
  "check_level_up s = level_loop (rev [0..<length LEVELS]) s"

section \<open>The tick\<close>

text \<open>
  \<^verbatim>\<open>game_tick\<close>. \<^verbatim>\<open>self.snake[0]\<close> raises on an empty list. \<^verbatim>\<open>_maybe_play\<close> swallows its
  exceptions and touches no field, so it is left out.
\<close>

definition game_tick :: "session \<Rightarrow> world \<Rightarrow> (session \<times> world) outcome" where
  "game_tick s w =
     (case snake s of
        [] \<Rightarrow> Raises IndexError
      | (head_x, head_y) # _ \<Rightarrow>
          (case direction s of (dx, dy) \<Rightarrow>
             let new_head = (head_x + dx, head_y + dy) in
             case new_head of (hx, hy) \<Rightarrow>
               if hx < 0 \<or> hx \<ge> GRID_WIDTH \<or> hy < 0 \<or> hy \<ge> GRID_HEIGHT \<or> new_head \<in> set (snake s)
               then Returns (save_highscore (s\<lparr>game_over := True\<rparr>) w)
               else
                 let s1 = s\<lparr>snake := new_head # snake s\<rparr> in
                 if new_head = food s1
                 then then_do (spawn_food (s1\<lparr>score := score s1 + 10\<rparr>) w)
                        (\<lambda>(s2, w2). Returns (check_level_up s2, w2))
                 else Returns (s1\<lparr>snake := butlast (snake s1)\<rparr>, w)))"

section \<open>Saving and loading\<close>

definition save_data :: "session \<Rightarrow> json" where
  "save_data s =
     JObject
       [(''snake'', JArray (map json_of_pos (snake s))),
        (''direction'', json_of_pos (direction s)),
        (''food'', json_of_pos (food s)),
        (''score'', JInt (score s)),
        (''level_index'', JInt (level_index s))]"

definition save_game :: "session \<Rightarrow> world \<Rightarrow> world" where
  "save_game s w =
     (let data = save_data s
      in if can_write_save w
         then w\<lparr>save_file := Doc data, console := console w @ [Game_saved]\<rparr>
         else w\<lparr>console := console w @ [Failed_to_save OSError]\<rparr>)"

text \<open>
  The statements of a \<^verbatim>\<open>try\<close> block, run in order on the session: the first one that raises
  ends the block, and what the earlier ones assigned stays.
\<close>

fun try_block :: "(session \<Rightarrow> session outcome) list \<Rightarrow> session \<Rightarrow> (session \<times> exn option) outcome" where
  "try_block [] s = Returns (s, None)"
| "try_block (stmt # stmts) s =
     (case stmt s of
        Returns s' \<Rightarrow> try_block stmts s'
      | Raises x \<Rightarrow> Returns (s, Some x)
      | Diverges \<Rightarrow> Diverges
      | Untyped \<Rightarrow> Untyped)"

text \<open>The assignments of \<^verbatim>\<open>load_game\<close> after \<^verbatim>\<open>data\<close> is read, in the order of the source.\<close>

definition load_statements :: "json \<Rightarrow> (session \<Rightarrow> session outcome) list" where
  "load_statements data =
     [\<lambda>s. then_do (then_do (py_getitem data ''snake'') py_tuple_list) (\<lambda>v. Returns (s\<lparr>snake := v\<rparr>)),
      \<lambda>s. then_do (then_do (py_getitem data ''direction'') py_tuple) (\<lambda>v. Returns (s\<lparr>direction := v\<rparr>)),
      \<lambda>s. then_do (then_do (py_getitem data ''food'') py_tuple) (\<lambda>v. Returns (s\<lparr>food := v\<rparr>)),
      \<lambda>s. then_do (then_do (py_getitem data ''score'') py_int) (\<lambda>v. Returns (s\<lparr>score := v\<rparr>)),
      \<lambda>s. then_do (then_do (py_getitem data ''level_index'') py_int) (\<lambda>v. Returns (s\<lparr>level_index := v\<rparr>)),
      \<lambda>s. then_do (py_index LEVELS (level_index s)) (\<lambda>l. Returns (s\<lparr>moves_per_second := level_speed l\<rparr>)),
      \<lambda>s. Returns (s\<lparr>game_over := False\<rparr>),
      \<lambda>s. Returns (s\<lparr>paused := False\<rparr>)]"

definition load_game :: "session \<Rightarrow> world \<Rightarrow> (session \<times> world) outcome" where
  "load_game s w =
     (case json_load (save_file w) of
        Raises x \<Rightarrow> Returns (s, w\<lparr>console := console w @ [Failed_to_load x]\<rparr>)
      | Diverges \<Rightarrow> Diverges
      | Untyped \<Rightarrow> Untyped
      | Returns data \<Rightarrow>
          then_do (try_block (load_statements data) s) (\<lambda>(s', raised).
            case raised of
              None \<Rightarrow> Returns (s', w\<lparr>console := console w @ [Game_loaded]\<rparr>)
            | Some x \<Rightarrow> Returns (s', w\<lparr>console := console w @ [Failed_to_load x]\<rparr>)))"

section \<open>Keys\<close>

datatype key =
  KEY_UP | KEY_DOWN | KEY_LEFT | KEY_RIGHT | KEY_SPACE | KEY_ENTER | KEY_ESCAPE | KEY_S | KEY_L
  | KEY_OTHER

definition on_key_press :: "key \<Rightarrow> session \<Rightarrow> world \<Rightarrow> (session \<times> world) outcome" where
  "on_key_press k s w =
     (if k = KEY_UP \<and> direction s \<noteq> (0, -1) then Returns (s\<lparr>direction := (0, 1)\<rparr>, w)
      else if k = KEY_DOWN \<and> direction s \<noteq> (0, 1) then Returns (s\<lparr>direction := (0, -1)\<rparr>, w)
      else if k = KEY_LEFT \<and> direction s \<noteq> (1, 0) then Returns (s\<lparr>direction := (-1, 0)\<rparr>, w)
      else if k = KEY_RIGHT \<and> direction s \<noteq> (-1, 0) then Returns (s\<lparr>direction := (1, 0)\<rparr>, w)
      else if k = KEY_SPACE then Returns (s\<lparr>paused := \<not> paused s\<rparr>, w)
      else if k = KEY_ENTER \<and> game_over s then reset_game w
      else if k = KEY_ESCAPE then Returns (s, w\<lparr>window_open := False\<rparr>)
      else if k = KEY_S then Returns (s, save_game s w)
      else if k = KEY_L then load_game s w
      else Returns (s, w))"

section \<open>Reachable sessions\<close>

text \<open>
  The sessions that play reaches: \<^verbatim>\<open>reset_game\<close> in any surroundings, then ticks, the four
  direction keys and the pause key, each in any surroundings.
\<close>

inductive reachable :: "session \<Rightarrow> bool" where
  reset: "reset_game w = Returns (s, w') \<Longrightarrow> reachable s"
| tick: "reachable s \<Longrightarrow> game_tick s w = Returns (s', w') \<Longrightarrow> reachable s'"
| press: "reachable s \<Longrightarrow> k \<in> {KEY_UP, KEY_DOWN, KEY_LEFT, KEY_RIGHT, KEY_SPACE} \<Longrightarrow>
          on_key_press k s w = Returns (s', w') \<Longrightarrow> reachable s'"

text \<open>
  The cell that the loop of \<^verbatim>\<open>spawn_food\<close> draws in its round number \<open>k\<close> (counted from 0):
  every round takes two numbers from the generator.
\<close>

definition candidate :: "nat stream \<Rightarrow> nat \<Rightarrow> Pos" where
  "candidate r k =
     (fst (randint 0 (GRID_WIDTH - 1) (sdrop (2 * k) r)),
      fst (randint 0 (GRID_HEIGHT - 1) (sdrop (2 * k + 1) r)))"

section \<open>Sessions and surroundings used as examples\<close>

definition quiet_world :: world where
  "quiet_world =
     \<lparr>rng = sconst 0, save_file = Missing, highscore_file = Missing, can_write_save = True,
      can_write_highscore = True, console = [], window_open = True\<rparr>"

text \<open>The session after \<^verbatim>\<open>reset_game\<close> when the generator draws the cell \<open>(0, 0)\<close>.\<close>

definition start_session :: session where
  "start_session =
     \<lparr>snake = [(15, 10)], direction = (1, 0), food = (0, 0), score = 0, level_index = 0,
      moves_per_second = 5, tick_accumulator = 0, game_over = False, paused = False,
      highscore = 0\<rparr>"

text \<open>A snake of four cells whose head is about to step onto its own tail.\<close>

definition ring_session :: session where
  "ring_session =
     start_session\<lparr>snake := [(1, 1), (1, 0), (0, 0), (0, 1)], direction := (-1, 0),
       food := (5, 5), score := 30\<rparr>"

text \<open>The snake at the left wall, heading left, with ten points.\<close>

definition wall_session :: session where
  "wall_session = start_session\<lparr>snake := [(0, 10)], direction := (-1, 0), score := 10\<rparr>"

definition readonly_world :: world where
  "readonly_world = quiet_world\<lparr>can_write_highscore := False\<rparr>"

text \<open>A generator that draws 15, 10, 15, 10, ...: the cell of the snake after a reset.\<close>

definition stubborn_world :: world where
  "stubborn_world = quiet_world\<lparr>rng := cycle [15, 10]\<rparr>"


text \<open>A finished game whose level index is not an index of \<^verbatim>\<open>LEVELS\<close>.\<close>

definition stale_session :: session where
  "stale_session = start_session\<lparr>level_index := 7, game_over := True\<rparr>"

section \<open>Properties of the food loop\<close>

lemma spawn_loop_unfold:
  "spawn_loop sn r =
     (if candidate r 0 \<notin> set sn then Some (candidate r 0, stl (stl r))
      else spawn_loop sn (stl (stl r)))"
  by (subst spawn_loop.simps) (simp add: randint_def candidate_def)

lemma candidate_Suc: "candidate r (Suc k) = candidate (stl (stl r)) k"
  by (simp add: candidate_def)

lemma candidate_in_grid:
  "0 \<le> fst (candidate r k) \<and> fst (candidate r k) < GRID_WIDTH \<and>
   0 \<le> snd (candidate r k) \<and> snd (candidate r k) < GRID_HEIGHT"
  by (simp add: candidate_def randint_def GRID_WIDTH_def GRID_HEIGHT_def)

lemma spawn_loop_returns:
  "candidate r k \<notin> set sn \<Longrightarrow>
     \<exists>j r'. spawn_loop sn r = Some (candidate r j, r') \<and> candidate r j \<notin> set sn"
proof (induction k arbitrary: r)
  case 0
  then show ?case by (subst spawn_loop_unfold) auto
next
  case (Suc k)
  show ?case
  proof (cases "candidate r 0 \<in> set sn")
    case False
    then show ?thesis by (subst spawn_loop_unfold) auto
  next
    case True
    from Suc.prems have "candidate (stl (stl r)) k \<notin> set sn"
      by (simp add: candidate_Suc)
    then obtain j r' where
      j: "spawn_loop sn (stl (stl r)) = Some (candidate (stl (stl r)) j, r')"
         "candidate (stl (stl r)) j \<notin> set sn"
      using Suc.IH by blast
    then have "spawn_loop sn r = Some (candidate r (Suc j), r') \<and> candidate r (Suc j) \<notin> set sn"
      using True by (subst spawn_loop_unfold) (simp add: candidate_Suc)
    then show ?thesis by blast
  qed
qed

lemma spawn_loop_free:
  assumes "spawn_loop sn r = Some y"
  shows "fst y \<notin> set sn \<and> 0 \<le> fst (fst y) \<and> fst (fst y) < GRID_WIDTH \<and>
         0 \<le> snd (fst y) \<and> snd (fst y) < GRID_HEIGHT"
proof (rule spawn_loop.raw_induct[OF _ assms])
  fix f :: "Pos list \<Rightarrow> nat stream \<Rightarrow> (Pos \<times> nat stream) option" and sn r y
  assume IH: "\<And>sn r y. f sn r = Some y \<Longrightarrow>
      fst y \<notin> set sn \<and> 0 \<le> fst (fst y) \<and> fst (fst y) < GRID_WIDTH \<and>
      0 \<le> snd (fst y) \<and> snd (fst y) < GRID_HEIGHT"
    and step: "(case randint 0 (GRID_WIDTH - 1) r of
      (x, r1) \<Rightarrow>
        case randint 0 (GRID_HEIGHT - 1) r1 of
        (y, r2) \<Rightarrow>
          if (x, y) \<notin> set sn then Some ((x, y), r2) else f sn r2) = Some y"
  from step have step': "(if candidate r 0 \<notin> set sn then Some (candidate r 0, stl (stl r))
      else f sn (stl (stl r))) = Some y"
    by (auto simp: randint_def candidate_def split: if_splits)
  show "fst y \<notin> set sn \<and> 0 \<le> fst (fst y) \<and> fst (fst y) < GRID_WIDTH \<and>
        0 \<le> snd (fst y) \<and> snd (fst y) < GRID_HEIGHT"
  proof (cases "candidate r 0 \<in> set sn")
    case True
    with step' have "f sn (stl (stl r)) = Some y" by simp
    then show ?thesis by (rule IH)
  next
    case False
    with step' have "fst y = candidate r 0" by auto
    with False candidate_in_grid[of r 0] show ?thesis by simp
  qed
qed

lemma spawn_loop_stuck:
  assumes "candidate r 0 \<in> set sn" and "stl (stl r) = r"
  shows "spawn_loop sn r = None"
proof (cases "spawn_loop sn r")
  case None
  then show ?thesis .
next
  case (Some y)
  have "\<not> (candidate r 0 \<in> set sn \<and> stl (stl r) = r)"
  proof (rule spawn_loop.raw_induct[OF _ Some,
        where P = "\<lambda>sn r y. \<not> (candidate r 0 \<in> set sn \<and> stl (stl r) = r)"])
    fix f :: "Pos list \<Rightarrow> nat stream \<Rightarrow> (Pos \<times> nat stream) option" and sn r y
    assume IH: "\<And>sn r y. f sn r = Some y \<Longrightarrow> \<not> (candidate r 0 \<in> set sn \<and> stl (stl r) = r)"
      and step: "(case randint 0 (GRID_WIDTH - 1) r of
        (x, r1) \<Rightarrow>
          case randint 0 (GRID_HEIGHT - 1) r1 of
          (y, r2) \<Rightarrow>
            if (x, y) \<notin> set sn then Some ((x, y), r2) else f sn r2) = Some y"
    show "\<not> (candidate r 0 \<in> set sn \<and> stl (stl r) = r)"
    proof
      assume a: "candidate r 0 \<in> set sn \<and> stl (stl r) = r"
      with step have "f sn r = Some y" by (simp add: randint_def candidate_def)
      with IH a show False by blast
    qed
  qed
  with assms show ?thesis by simp
qed

text \<open>
  C9, as stated, fails: the snake after a reset fills one cell of six hundred, and on a
  generator that keeps drawing that cell the loop of \<^verbatim>\<open>spawn_food\<close> never ends.
\<close>

theorem spawn_food_stubborn:
  "int (length (snake start_session)) < GRID_WIDTH * GRID_HEIGHT \<and>
   spawn_food start_session stubborn_world = Diverges"
proof -
  have "spawn_loop [(15, 10)] (cycle [15, 10]) = None"
    by (rule spawn_loop_stuck) (simp_all add: candidate_def randint_def GRID_WIDTH_def GRID_HEIGHT_def)
  then show ?thesis
    by (simp add: spawn_food_def start_session_def stubborn_world_def quiet_world_def
        GRID_WIDTH_def GRID_HEIGHT_def)
qed

text \<open>
  C9, amended: for every snake and every generator that draws, in some round, a cell that
  is not on the snake, \<^verbatim>\<open>spawn_food\<close> returns, and the food is then a cell of the grid
  that is not on the snake.
\<close>

theorem spawn_food_returns:
  assumes "candidate (rng w) k \<notin> set (snake s)"
  shows "\<exists>p r. spawn_food s w = Returns (s\<lparr>food := p\<rparr>, w\<lparr>rng := r\<rparr>) \<and> p \<notin> set (snake s) \<and>
           0 \<le> fst p \<and> fst p < GRID_WIDTH \<and> 0 \<le> snd p \<and> snd p < GRID_HEIGHT"
proof -
  from spawn_loop_returns[OF assms] obtain j r where
    j: "spawn_loop (snake s) (rng w) = Some (candidate (rng w) j, r)"
       "candidate (rng w) j \<notin> set (snake s)"
    by blast
  then have "spawn_food s w = Returns (s\<lparr>food := candidate (rng w) j\<rparr>, w\<lparr>rng := r\<rparr>)"
    by (simp add: spawn_food_def)
  with j(2) candidate_in_grid[of "rng w" j] show ?thesis by blast
qed

theorem spawn_food_returns_witness:
  "candidate (rng quiet_world) 0 \<notin> set (snake start_session) \<and>
   spawn_food start_session quiet_world = Returns (start_session\<lparr>food := (0, 0)\<rparr>, quiet_world)"
proof -
  have free: "candidate (rng quiet_world) 0 \<notin> set (snake start_session)"
    by (simp add: candidate_def randint_def quiet_world_def start_session_def)
  have "spawn_food start_session quiet_world = Returns (start_session\<lparr>food := (0, 0)\<rparr>, quiet_world)"
    using spawn_food_returns[OF free]
    by (simp add: spawn_food_def spawn_loop_unfold candidate_def randint_def quiet_world_def start_session_def)
  with free show ?thesis by simp
qed

section \<open>Properties of the tick\<close>

lemma spawn_then_level:
  "then_do (spawn_food s w) (\<lambda>(s2, w2). Returns (check_level_up s2, w2)) =
     (case spawn_loop (snake s) (rng w) of
        None \<Rightarrow> Diverges
      | Some (p, r) \<Rightarrow> Returns (check_level_up (s\<lparr>food := p\<rparr>), w\<lparr>rng := r\<rparr>))"
  by (simp add: spawn_food_def split: option.splits)

lemma game_tick_cons:
  assumes "snake s = (head_x, head_y) # body" and "direction s = (dx, dy)"
  shows "game_tick s w =
     (if head_x + dx < 0 \<or> head_x + dx \<ge> GRID_WIDTH \<or> head_y + dy < 0 \<or> head_y + dy \<ge> GRID_HEIGHT
         \<or> (head_x + dx, head_y + dy) \<in> set (snake s)
      then Returns (save_highscore (s\<lparr>game_over := True\<rparr>) w)
      else if (head_x + dx, head_y + dy) = food s
      then (case spawn_loop ((head_x + dx, head_y + dy) # snake s) (rng w) of
              None \<Rightarrow> Diverges
            | Some (p, r) \<Rightarrow>
                Returns (check_level_up (s\<lparr>snake := (head_x + dx, head_y + dy) # snake s,
                           score := score s + 10, food := p\<rparr>), w\<lparr>rng := r\<rparr>))
      else Returns (s\<lparr>snake := (head_x + dx, head_y + dy) # butlast (snake s)\<rparr>, w))"
  unfolding game_tick_def
  by (simp add: assms spawn_then_level Let_def split: option.splits)

lemma game_tick_collision:
  assumes "snake s = (head_x, head_y) # body" and "direction s = (dx, dy)"
    and "head_x + dx < 0 \<or> head_x + dx \<ge> GRID_WIDTH \<or> head_y + dy < 0 \<or> head_y + dy \<ge> GRID_HEIGHT
         \<or> (head_x + dx, head_y + dy) \<in> set (snake s)"
  shows "game_tick s w = Returns (save_highscore (s\<lparr>game_over := True\<rparr>) w)"
  using assms(3) by (subst game_tick_cons[OF assms(1,2)]) (simp only: if_True)

lemma level_loop_keeps:
  "snake (level_loop is s) = snake s \<and> food (level_loop is s) = food s \<and>
   direction (level_loop is s) = direction s \<and> score (level_loop is s) = score s"
  by (induction "is") simp_all

lemma check_level_up_keeps:
  "snake (check_level_up s) = snake s \<and> food (check_level_up s) = food s \<and>
   direction (check_level_up s) = direction s \<and> score (check_level_up s) = score s"
  by (simp add: check_level_up_def level_loop_keeps)

text \<open>
  C1: the collision test of a tick looks at the snake as it is before the move. When the new
  head (head plus direction) is the last cell of the snake, the tick ends with the game over
  and the snake untouched; nothing is assumed about the food, so this holds also when no
  food is eaten and the move would have freed that cell.
\<close>

theorem tail_cell_is_fatal:
  assumes "snake s = (head_x, head_y) # body" and "direction s = (dx, dy)"
    and "(head_x + dx, head_y + dy) = last (snake s)"
  shows "\<exists>s' w'. game_tick s w = Returns (s', w') \<and> game_over s' \<and> snake s' = snake s"
proof -
  have "last (snake s) \<in> set (snake s)"
    using assms(1) by (intro last_in_set) simp
  with assms(3) have "(head_x + dx, head_y + dy) \<in> set (snake s)" by simp
  then have "game_tick s w = Returns (save_highscore (s\<lparr>game_over := True\<rparr>) w)"
    using assms(1,2) by (intro game_tick_collision) auto
  then show ?thesis
    by (cases "can_write_highscore w") (simp_all add: save_highscore_def Let_def)
qed

theorem tail_cell_is_fatal_witness:
  "snake ring_session = (1, 1) # [(1, 0), (0, 0), (0, 1)] \<and> direction ring_session = (-1, 0) \<and>
   (1 + (-1), 1 + 0) = last (snake ring_session) \<and> (1 + (-1), 1 + 0) \<noteq> food ring_session \<and>
   (\<exists>s' w'. game_tick ring_session quiet_world = Returns (s', w') \<and> game_over s' \<and>
      snake s' = snake ring_session)"
proof -
  have a: "snake ring_session = (1, 1) # [(1, 0), (0, 0), (0, 1)]"
    and b: "direction ring_session = (-1, 0)"
    and c: "(1 + (-1), 1 + 0) = last (snake ring_session)"
    and d: "(1 + (-1), 1 + 0) \<noteq> food ring_session"
    by (simp_all add: ring_session_def start_session_def)
  from tail_cell_is_fatal[OF a b c, of quiet_world] a b c d show ?thesis by blast
qed





text \<open>
  C4, as stated, fails when the high-score file cannot be written: the snake runs into the
  left wall with ten points and a high score of zero, and the high score stays zero.
\<close>

theorem highscore_not_written:
  "snake wall_session = [(0, 10)] \<and> direction wall_session = (-1, 0) \<and>
   game_tick wall_session readonly_world = Returns (wall_session\<lparr>game_over := True\<rparr>, readonly_world) \<and>
   highscore (wall_session\<lparr>game_over := True\<rparr>) = 0 \<and>
   max (highscore wall_session) (score wall_session) = 10"
  by (simp add: game_tick_def save_highscore_def wall_session_def start_session_def
      readonly_world_def quiet_world_def)

text \<open>
  C4, amended: in every tick whose new head leaves the grid or is a cell of the snake before
  the move, the game is over afterwards; the high score becomes the larger of the old high
  score and the score when the high-score file can be written, and keeps its value when it
  cannot.
\<close>

theorem collision_ends_game:
  assumes "snake s = (head_x, head_y) # body" and "direction s = (dx, dy)"
    and "head_x + dx < 0 \<or> head_x + dx \<ge> GRID_WIDTH \<or> head_y + dy < 0 \<or> head_y + dy \<ge> GRID_HEIGHT
         \<or> (head_x + dx, head_y + dy) \<in> set (snake s)"
  shows "\<exists>s' w'. game_tick s w = Returns (s', w') \<and> game_over s' \<and>
           highscore s' = (if can_write_highscore w then max (highscore s) (score s) else highscore s)"
proof -
  have "game_tick s w = Returns (save_highscore (s\<lparr>game_over := True\<rparr>) w)"
    using assms by (rule game_tick_collision)
  then show ?thesis
    by (cases "can_write_highscore w") (simp_all add: save_highscore_def Let_def)
qed

theorem collision_ends_game_witness:
  "snake wall_session = (0, 10) # [] \<and> direction wall_session = (-1, 0) \<and> 0 + (-1) < (0::int) \<and>
   can_write_highscore quiet_world \<and>
   (\<exists>s' w'. game_tick wall_session quiet_world = Returns (s', w') \<and> game_over s' \<and>
      highscore s' = max (highscore wall_session) (score wall_session))"
proof -
  have a: "snake wall_session = (0, 10) # []" and b: "direction wall_session = (-1, 0)"
    by (simp_all add: wall_session_def start_session_def)
  have c: "0 + (-1) < (0::int) \<or> 0 + (-1) \<ge> GRID_WIDTH \<or> 10 + 0 < (0::int) \<or> 10 + 0 \<ge> GRID_HEIGHT
         \<or> (0 + (-1), 10 + 0) \<in> set (snake wall_session)"
    by simp
  have d: "can_write_highscore quiet_world" by (simp add: quiet_world_def)
  from collision_ends_game[OF a b c, of quiet_world] a b d show ?thesis by simp
qed

text \<open>
  C10: a tick that ends in a collision leaves the snake, the direction, the food, the score,
  the level index, the tick rate, the accumulator and the pause flag as they were.
\<close>

theorem collision_changes_nothing_else:
  assumes "snake s = (head_x, head_y) # body" and "direction s = (dx, dy)"
    and "head_x + dx < 0 \<or> head_x + dx \<ge> GRID_WIDTH \<or> head_y + dy < 0 \<or> head_y + dy \<ge> GRID_HEIGHT
         \<or> (head_x + dx, head_y + dy) \<in> set (snake s)"
  shows "\<exists>s' w'. game_tick s w = Returns (s', w') \<and> snake s' = snake s \<and>
           direction s' = direction s \<and> food s' = food s \<and> score s' = score s \<and>
           level_index s' = level_index s \<and> moves_per_second s' = moves_per_second s \<and>
           tick_accumulator s' = tick_accumulator s \<and> paused s' = paused s"
proof -
  have "game_tick s w = Returns (save_highscore (s\<lparr>game_over := True\<rparr>) w)"
    using assms by (rule game_tick_collision)
  then show ?thesis
    by (cases "can_write_highscore w") (simp_all add: save_highscore_def Let_def)
qed

theorem collision_changes_nothing_else_witness:
  "snake ring_session = (1, 1) # [(1, 0), (0, 0), (0, 1)] \<and> direction ring_session = (-1, 0) \<and>
   (1 + (-1), 1 + 0) \<in> set (snake ring_session) \<and>
   (\<exists>s' w'. game_tick ring_session quiet_world = Returns (s', w') \<and>
      snake s' = snake ring_session \<and> direction s' = direction ring_session \<and>
      food s' = food ring_session \<and> score s' = score ring_session \<and>
      level_index s' = level_index ring_session \<and>
      moves_per_second s' = moves_per_second ring_session \<and>
      tick_accumulator s' = tick_accumulator ring_session \<and> paused s' = paused ring_session)"
proof -
  have a: "snake ring_session = (1, 1) # [(1, 0), (0, 0), (0, 1)]"
    and b: "direction ring_session = (-1, 0)"
    and c: "(1 + (-1), 1 + 0) \<in> set (snake ring_session)"
    by (simp_all add: ring_session_def start_session_def)
  from c have c': "1 + (-1) < (0::int) \<or> 1 + (-1) \<ge> GRID_WIDTH \<or> 1 + 0 < (0::int) \<or> 1 + 0 \<ge> GRID_HEIGHT
         \<or> (1 + (-1), 1 + 0) \<in> set (snake ring_session)"
    by blast
  from collision_changes_nothing_else[OF a b c', of quiet_world] a b c show ?thesis by blast
qed

section \<open>The invariant of play\<close>

lemma reset_game_sound:
  assumes "reset_game w = Returns (s, w')"
  shows "snake s \<noteq> [] \<and> distinct (snake s) \<and> 0 \<le> fst (food s) \<and> fst (food s) < GRID_WIDTH \<and>
         0 \<le> snd (food s) \<and> snd (food s) < GRID_HEIGHT \<and> food s \<notin> set (snake s)"
proof (cases "spawn_loop [(GRID_WIDTH div 2, GRID_HEIGHT div 2)] (rng w)")
  case None
  with assms show ?thesis by (simp add: reset_game_def)
next
  case (Some y)
  obtain p r where y: "y = (p, r)" by (cases y)
  from assms Some y obtain h where "load_highscore w = Returns h"
    and s: "s = \<lparr>snake = [(GRID_WIDTH div 2, GRID_HEIGHT div 2)], direction = (1, 0), food = p,
        score = 0, level_index = 0, moves_per_second = level_speed (LEVELS ! 0),
        tick_accumulator = 0, game_over = False, paused = False, highscore = h\<rparr>"
    by (cases "load_highscore w") (auto simp: reset_game_def)
  from spawn_loop_free[OF Some] y s show ?thesis by simp
qed

lemma game_tick_sound:
  assumes inv: "snake s \<noteq> [] \<and> distinct (snake s) \<and> 0 \<le> fst (food s) \<and> fst (food s) < GRID_WIDTH \<and>
         0 \<le> snd (food s) \<and> snd (food s) < GRID_HEIGHT \<and> food s \<notin> set (snake s)"
    and tick: "game_tick s w = Returns (s', w')"
  shows "snake s' \<noteq> [] \<and> distinct (snake s') \<and> 0 \<le> fst (food s') \<and> fst (food s') < GRID_WIDTH \<and>
         0 \<le> snd (food s') \<and> snd (food s') < GRID_HEIGHT \<and> food s' \<notin> set (snake s')"
proof -
  from inv obtain head_x head_y body where sn: "snake s = (head_x, head_y) # body"
    by (cases "snake s") auto
  obtain dx dy where dir: "direction s = (dx, dy)" by (cases "direction s")
  let ?nh = "(head_x + dx, head_y + dy)"
  note unfolded = game_tick_cons[OF sn dir, of w]
  show ?thesis
  proof (cases "head_x + dx < 0 \<or> head_x + dx \<ge> GRID_WIDTH \<or> head_y + dy < 0 \<or> head_y + dy \<ge> GRID_HEIGHT
         \<or> ?nh \<in> set (snake s)")
    case True
    with unfolded tick have "(s', w') = save_highscore (s\<lparr>game_over := True\<rparr>) w"
      by (simp only: if_True outcome.inject)
    then have "snake s' = snake s \<and> food s' = food s"
      by (cases "can_write_highscore w") (auto simp: save_highscore_def Let_def)
    with inv show ?thesis by simp
  next
    case False
    then have fresh: "?nh \<notin> set (snake s)" by blast
    show ?thesis
    proof (cases "?nh = food s")
      case no_food: False
      with False unfolded tick
      have "s' = s\<lparr>snake := ?nh # butlast (snake s)\<rparr>"
        by (simp only: if_False outcome.inject prod.inject)
      moreover have "?nh \<notin> set (butlast (snake s))"
        using fresh by (meson in_set_butlastD)
      moreover have "food s \<notin> set (butlast (snake s))"
        using inv by (meson in_set_butlastD)
      moreover have "distinct (butlast (snake s))"
        using inv by (simp add: distinct_butlast)
      ultimately show ?thesis using inv no_food by auto
    next
      case eats: True
      show ?thesis
      proof (cases "spawn_loop (?nh # snake s) (rng w)")
        case None
        with False eats unfolded tick show ?thesis by simp
      next
        case (Some y)
        obtain p r where y: "y = (p, r)" by (cases y)
        from False eats unfolded tick Some y
        have s': "s' = check_level_up (s\<lparr>snake := ?nh # snake s, score := score s + 10, food := p\<rparr>)"
          by simp
        from spawn_loop_free[OF Some] y
        have "p \<notin> set (?nh # snake s) \<and> 0 \<le> fst p \<and> fst p < GRID_WIDTH \<and>
              0 \<le> snd p \<and> snd p < GRID_HEIGHT"
          by simp
        with s' fresh inv show ?thesis by (simp add: check_level_up_keeps)
      qed
    qed
  qed
qed

lemma on_key_press_sound:
  assumes "k \<in> {KEY_UP, KEY_DOWN, KEY_LEFT, KEY_RIGHT, KEY_SPACE}"
    and "on_key_press k s w = Returns (s', w')"
  shows "snake s' = snake s \<and> food s' = food s"
  using assms by (auto simp: on_key_press_def split: if_splits)

text \<open>
  C3: in every session reached from a reset by ticks, direction keys and the pause key, the
  snake is not empty and has no cell twice, and the food is a cell of the grid that is not
  on the snake.
\<close>

theorem play_invariant:
  assumes "reachable s"
  shows "snake s \<noteq> [] \<and> distinct (snake s) \<and> 0 \<le> fst (food s) \<and> fst (food s) < GRID_WIDTH \<and>
         0 \<le> snd (food s) \<and> snd (food s) < GRID_HEIGHT \<and> food s \<notin> set (snake s)"
  using assms
proof (induction rule: reachable.induct)
  case (reset w s w')
  then show ?case by (rule reset_game_sound)
next
  case (tick s w s' w')
  from tick.IH tick.hyps(2) show ?case by (rule game_tick_sound)
next
  case (press s k w s' w')
  from on_key_press_sound[OF press.hyps(2,3)] press.IH show ?case by simp
qed

theorem play_invariant_witness:
  "reachable start_session \<and> snake start_session \<noteq> [] \<and> distinct (snake start_session) \<and>
   0 \<le> fst (food start_session) \<and> fst (food start_session) < GRID_WIDTH \<and>
   0 \<le> snd (food start_session) \<and> snd (food start_session) < GRID_HEIGHT \<and>
   food start_session \<notin> set (snake start_session)"
proof -
  have sp: "spawn_loop [(GRID_WIDTH div 2, GRID_HEIGHT div 2)] (rng quiet_world) = Some ((0, 0), sconst 0)"
    by (subst spawn_loop_unfold)
      (simp add: candidate_def randint_def quiet_world_def GRID_WIDTH_def GRID_HEIGHT_def)
  have "reset_game quiet_world = Returns (start_session, quiet_world)"
    by (simp add: reset_game_def sp load_highscore_def)
      (simp add: quiet_world_def start_session_def LEVELS_def GRID_WIDTH_def GRID_HEIGHT_def)
  then have r: "reachable start_session" by (rule reachable.reset)
  from play_invariant[OF r] r show ?thesis by simp
qed

section \<open>Properties of the level lookup\<close>

lemma rev_levels: "rev [0..<length LEVELS] = [3, 2, 1, 0]"
  by (simp add: LEVELS_def)

lemma level_index_check_level_up:
  "level_index (check_level_up s) =
     (if 150 \<le> score s then 3 else if 100 \<le> score s then 2 else if 50 \<le> score s then 1
      else if 0 \<le> score s then 0 else level_index s)"
  unfolding check_level_up_def rev_levels
  by (simp add: LEVELS_def)

lemma length_LEVELS: "length LEVELS = 4"
  by (simp add: LEVELS_def)

lemma LEVELS_nth: "j < length LEVELS \<Longrightarrow> level_score (LEVELS ! j) = 50 * int j"
proof -
  assume "j < length LEVELS"
  then have "j = 0 \<or> j = 1 \<or> j = 2 \<or> j = 3"
    unfolding length_LEVELS by arith
  then show ?thesis
    by (elim disjE) (simp_all add: LEVELS_def)
qed

text \<open>
  C7: for a score that is not negative, \<^verbatim>\<open>check_level_up\<close> leaves in \<^verbatim>\<open>level_index\<close> the
  highest index of \<^verbatim>\<open>LEVELS\<close> whose threshold the score reaches; so the level found does not
  go down when the score goes up, and it is 0 for the score 0.
\<close>

theorem check_level_up_highest:
  assumes "0 \<le> score s"
  shows "(\<exists>i < length LEVELS. level_index (check_level_up s) = int i \<and>
            level_score (LEVELS ! i) \<le> score s \<and>
            (\<forall>j < length LEVELS. level_score (LEVELS ! j) \<le> score s \<longrightarrow> j \<le> i))
       \<and> (\<forall>t. score s \<le> score t \<longrightarrow> level_index (check_level_up s) \<le> level_index (check_level_up t))
       \<and> (score s = 0 \<longrightarrow> level_index (check_level_up s) = 0)"
proof (intro conjI allI impI)
  define i where "i = nat (level_index (check_level_up s))"
  from assms have i: "level_index (check_level_up s) = int i" "i < 4"
    and lo: "50 * int i \<le> score s" and hi: "i < 3 \<longrightarrow> score s < 50 * int i + 50"
    by (simp_all add: i_def level_index_check_level_up)
  have "\<forall>j < length LEVELS. level_score (LEVELS ! j) \<le> score s \<longrightarrow> j \<le> i"
  proof (intro allI impI)
    fix j
    assume j: "j < length LEVELS" and "level_score (LEVELS ! j) \<le> score s"
    then have "50 * int j \<le> score s" by (simp add: LEVELS_nth)
    with hi i(2) j show "j \<le> i" unfolding length_LEVELS by arith
  qed
  moreover have "level_score (LEVELS ! i) \<le> score s"
    using lo i(2) by (simp add: LEVELS_nth length_LEVELS)
  ultimately show "\<exists>i < length LEVELS. level_index (check_level_up s) = int i \<and>
            level_score (LEVELS ! i) \<le> score s \<and>
            (\<forall>j < length LEVELS. level_score (LEVELS ! j) \<le> score s \<longrightarrow> j \<le> i)"
    using i unfolding length_LEVELS by blast
next
  fix t :: session
  assume "score s \<le> score t"
  with assms show "level_index (check_level_up s) \<le> level_index (check_level_up t)"
    by (simp add: level_index_check_level_up)
next
  assume "score s = 0"
  then show "level_index (check_level_up s) = 0"
    by (simp add: level_index_check_level_up)
qed


theorem check_level_up_highest_witness:
  "0 \<le> score (start_session\<lparr>score := 50\<rparr>) \<and>
   level_index (check_level_up (start_session\<lparr>score := 50\<rparr>)) = 1 \<and>
   score (start_session\<lparr>score := 50\<rparr>) \<le> score (start_session\<lparr>score := 120\<rparr>) \<and>
   level_index (check_level_up (start_session\<lparr>score := 50\<rparr>))
     \<le> level_index (check_level_up (start_session\<lparr>score := 120\<rparr>)) \<and>
   0 \<le> score start_session \<and> score start_session = 0 \<and>
   level_index (check_level_up start_session) = 0"
proof -
  have a: "0 \<le> score (start_session\<lparr>score := 50\<rparr>)"
    and b: "score (start_session\<lparr>score := 50\<rparr>) \<le> score (start_session\<lparr>score := 120\<rparr>)"
    and c: "0 \<le> score start_session" "score start_session = 0"
    by (simp_all add: start_session_def)
  have v: "level_index (check_level_up (start_session\<lparr>score := 50\<rparr>)) = 1"
    by (simp add: level_index_check_level_up)
  from check_level_up_highest[OF a] b
  have m: "level_index (check_level_up (start_session\<lparr>score := 50\<rparr>))
     \<le> level_index (check_level_up (start_session\<lparr>score := 120\<rparr>))"
    by blast
  from check_level_up_highest[OF c(1)] c(2)
  have z: "level_index (check_level_up start_session) = 0"
    by blast
  from a b c v m z show ?thesis by blast
qed


section \<open>Properties of the direction keys\<close>

text \<open>
  C8: a direction key asks for its own direction (up \<open>(0, 1)\<close>, down \<open>(0, -1)\<close>, left
  \<open>(-1, 0)\<close>, right \<open>(1, 0)\<close>). When the current direction is not the exact reverse of
  the one asked for, \<^verbatim>\<open>on_key_press\<close> adopts it; when it is, nothing changes.
\<close>

theorem direction_keys:
  assumes "(k, d) \<in> {(KEY_UP, (0, 1)), (KEY_DOWN, (0, -1)), (KEY_LEFT, (-1, 0)), (KEY_RIGHT, (1, 0))}"
  shows "(direction s \<noteq> (- fst d, - snd d) \<longrightarrow> on_key_press k s w = Returns (s\<lparr>direction := d\<rparr>, w))
       \<and> (direction s = (- fst d, - snd d) \<longrightarrow> on_key_press k s w = Returns (s, w))"
proof -
  from assms consider
      (up) "k = KEY_UP" "d = (0, 1)"
    | (down) "k = KEY_DOWN" "d = (0, -1)"
    | (left) "k = KEY_LEFT" "d = (-1, 0)"
    | (right) "k = KEY_RIGHT" "d = (1, 0)"
    by auto
  then show ?thesis
  proof cases
    case up
    then show ?thesis by (simp add: on_key_press_def)
  next
    case down
    then show ?thesis by (simp add: on_key_press_def)
  next
    case left
    then show ?thesis by (simp add: on_key_press_def)
  next
    case right
    then show ?thesis by (simp add: on_key_press_def)
  qed
qed

theorem direction_keys_witness:
  "(KEY_UP, (0, 1)) \<in> {(KEY_UP, (0, 1)), (KEY_DOWN, (0, -1)), (KEY_LEFT, (-1, 0)), (KEY_RIGHT, (1::int, 0::int))} \<and>
   direction start_session \<noteq> (- fst (0::int, 1::int), - snd (0::int, 1::int)) \<and>
   on_key_press KEY_UP start_session quiet_world = Returns (start_session\<lparr>direction := (0, 1)\<rparr>, quiet_world) \<and>
   (KEY_LEFT, (-1, 0)) \<in> {(KEY_UP, (0, 1)), (KEY_DOWN, (0, -1)), (KEY_LEFT, (-1, 0)), (KEY_RIGHT, (1::int, 0::int))} \<and>
   direction start_session = (- fst (-1::int, 0::int), - snd (-1::int, 0::int)) \<and>
   on_key_press KEY_LEFT start_session quiet_world = Returns (start_session, quiet_world)"
proof -
  have a: "(KEY_UP, (0, 1)) \<in> {(KEY_UP, (0, 1)), (KEY_DOWN, (0, -1)), (KEY_LEFT, (-1, 0)), (KEY_RIGHT, (1::int, 0::int))}"
    and b: "(KEY_LEFT, (-1, 0)) \<in> {(KEY_UP, (0, 1)), (KEY_DOWN, (0, -1)), (KEY_LEFT, (-1, 0)), (KEY_RIGHT, (1::int, 0::int))}"
    by simp_all
  have c: "direction start_session \<noteq> (- fst (0::int, 1::int), - snd (0::int, 1::int))"
    and d: "direction start_session = (- fst (-1::int, 0::int), - snd (-1::int, 0::int))"
    by (simp_all add: start_session_def)
  from direction_keys[OF a, of start_session quiet_world] c
  have e: "on_key_press KEY_UP start_session quiet_world = Returns (start_session\<lparr>direction := (0, 1)\<rparr>, quiet_world)"
    by blast
  from direction_keys[OF b, of start_session quiet_world] d
  have f: "on_key_press KEY_LEFT start_session quiet_world = Returns (start_session, quiet_world)"
    by blast
  from a b c d e f show ?thesis by blast
qed

section \<open>Properties of saving and loading\<close>

lemma py_tuple_json_of_pos: "py_tuple (json_of_pos p) = Returns p"
  by (simp add: json_of_pos_def)

lemma tuples_json_of_pos: "tuples (map json_of_pos cs) = Returns cs"
  by (induction cs) (simp_all add: py_tuple_json_of_pos)

lemma py_index_LEVELS:
  "py_index LEVELS i =
     (if - 4 \<le> i \<and> i < 4 then Returns (LEVELS ! nat (if i < 0 then 4 + i else i)) else Raises IndexError)"
  by (simp add: py_index_def LEVELS_def Let_def)

lemma try_block_saved:
  "try_block (load_statements (save_data s)) s0 =
     (let s1 = s0\<lparr>snake := snake s, direction := direction s, food := food s, score := score s,
                 level_index := level_index s\<rparr>
      in case py_index LEVELS (level_index s) of
           Returns l \<Rightarrow>
             Returns (s1\<lparr>moves_per_second := level_speed l, game_over := False, paused := False\<rparr>, None)
         | Raises x \<Rightarrow> Returns (s1, Some x)
         | Diverges \<Rightarrow> Diverges
         | Untyped \<Rightarrow> Untyped)"
  by (cases "py_index LEVELS (level_index s)")
    (simp_all add: load_statements_def save_data_def tuples_json_of_pos py_tuple_json_of_pos)














lemma load_game_Doc:
  assumes "json_load (save_file w) = Returns data"
  shows "load_game s w =
     (case try_block (load_statements data) s of
        Returns (s', None) \<Rightarrow> Returns (s', w\<lparr>console := console w @ [Game_loaded]\<rparr>)
      | Returns (s', Some x) \<Rightarrow> Returns (s', w\<lparr>console := console w @ [Failed_to_load x]\<rparr>)
      | Raises x \<Rightarrow> Raises x
      | Diverges \<Rightarrow> Diverges
      | Untyped \<Rightarrow> Untyped)"
  using assms by (simp add: load_game_def split: outcome.splits option.splits)




text \<open>
  C6, as stated, fails for a session whose level index is not an index of \<^verbatim>\<open>LEVELS\<close>: the
  five fields come back, then \<^verbatim>\<open>LEVELS[self.level_index]\<close> raises, the load reports a
  failure and the game-over flag is still set.
\<close>

theorem stale_level_not_reset:
  "can_write_save quiet_world \<and>
   load_game stale_session (save_game stale_session quiet_world) =
     Returns (stale_session,
       (save_game stale_session quiet_world)\<lparr>console := [Game_saved, Failed_to_load IndexError]\<rparr>) \<and>
   game_over stale_session"
proof -
  have w: "save_file (save_game stale_session quiet_world) = Doc (save_data stale_session)"
      "console (save_game stale_session quiet_world) = [Game_saved]"
      "can_write_save quiet_world"
    by (simp_all add: save_game_def quiet_world_def)
  have l: "level_index stale_session = 7" "game_over stale_session"
    by (simp_all add: stale_session_def)
  have "try_block (load_statements (save_data stale_session)) stale_session =
      Returns (stale_session, Some IndexError)"
    unfolding try_block_saved by (simp add: py_index_LEVELS l stale_session_def)
  then show ?thesis
    using w l by (simp add: load_game_def)
qed

text \<open>
  C6, amended. When the save file can be written, loading what \<^verbatim>\<open>save_game\<close> wrote for a
  session \<open>s\<close>, into any live session, gives back the snake, direction, food, score and
  level index of \<open>s\<close>; and when the level index of \<open>s\<close> is one that \<^verbatim>\<open>LEVELS\<close> accepts
  (from -4 to 3), the load succeeds, the tick rate is the speed of that level and both flags
  are false.
\<close>

theorem save_then_load:
  assumes "can_write_save w"
  shows "\<exists>s' m. load_game s0 (save_game s w) =
            Returns (s', (save_game s w)\<lparr>console := console (save_game s w) @ [m]\<rparr>) \<and>
          snake s' = snake s \<and> direction s' = direction s \<and> food s' = food s \<and>
          score s' = score s \<and> level_index s' = level_index s \<and>
          (- int (length LEVELS) \<le> level_index s \<and> level_index s < int (length LEVELS) \<longrightarrow>
             m = Game_loaded \<and>
             (\<exists>l. py_index LEVELS (level_index s) = Returns l \<and> moves_per_second s' = level_speed l) \<and>
             \<not> game_over s' \<and> \<not> paused s')"
proof -
  from assms have d: "json_load (save_file (save_game s w)) = Returns (save_data s)"
    by (simp add: save_game_def)
  let ?s1 = "s0\<lparr>snake := snake s, direction := direction s, food := food s, score := score s,
                 level_index := level_index s\<rparr>"
  let ?w = "save_game s w"
  show ?thesis
  proof (cases "- 4 \<le> level_index s \<and> level_index s < 4")
    case True
    define l where "l = LEVELS ! nat (if level_index s < 0 then 4 + level_index s else level_index s)"
    from True have l: "py_index LEVELS (level_index s) = Returns l"
      by (simp add: py_index_LEVELS l_def)
    then have "load_game s0 ?w =
        Returns (?s1\<lparr>moves_per_second := level_speed l, game_over := False, paused := False\<rparr>,
          ?w\<lparr>console := console ?w @ [Game_loaded]\<rparr>)"
      unfolding load_game_Doc[OF d] try_block_saved by (simp add: Let_def)
    with l show ?thesis
      by (intro exI[of _ "?s1\<lparr>moves_per_second := level_speed l, game_over := False, paused := False\<rparr>"]
          exI[of _ Game_loaded]) simp
  next
    case False
    then have "py_index LEVELS (level_index s) = Raises IndexError"
      by (simp add: py_index_LEVELS)
    then have "load_game s0 ?w = Returns (?s1, ?w\<lparr>console := console ?w @ [Failed_to_load IndexError]\<rparr>)"
      unfolding load_game_Doc[OF d] try_block_saved by (simp add: Let_def)
    with False show ?thesis
      by (intro exI[of _ ?s1] exI[of _ "Failed_to_load IndexError"]) (simp add: length_LEVELS)
  qed
qed

theorem save_then_load_witness:
  "can_write_save quiet_world \<and> - int (length LEVELS) \<le> level_index ring_session \<and>
   level_index ring_session < int (length LEVELS) \<and>
   (\<exists>s'. load_game stale_session (save_game ring_session quiet_world) =
           Returns (s', (save_game ring_session quiet_world)\<lparr>console := [Game_saved, Game_loaded]\<rparr>) \<and>
         snake s' = snake ring_session \<and> direction s' = direction ring_session \<and>
         food s' = food ring_session \<and> score s' = score ring_session \<and>
         level_index s' = level_index ring_session \<and> moves_per_second s' = 5 \<and>
         \<not> game_over s' \<and> \<not> paused s')"
proof -
  have a: "can_write_save quiet_world" by (simp add: quiet_world_def)
  have b: "- int (length LEVELS) \<le> level_index ring_session \<and>
      level_index ring_session < int (length LEVELS)"
    by (simp add: ring_session_def start_session_def LEVELS_def)
  have c: "console (save_game ring_session quiet_world) = [Game_saved]"
    by (simp add: save_game_def quiet_world_def)
  have "level_index ring_session = 0"
    by (simp add: ring_session_def start_session_def)
  then have "py_index LEVELS (level_index ring_session) = Returns (LEVELS ! 0)"
    by (simp add: py_index_LEVELS)
  moreover have "level_speed (LEVELS ! 0) = 5"
    by (simp add: LEVELS_def)
  ultimately have l: "py_index LEVELS (level_index ring_session) = Returns l \<Longrightarrow> level_speed l = 5" for l
    by simp
  from save_then_load[OF a, of stale_session ring_session] a b c l show ?thesis
    by auto
qed

end
